theory Spec2Isabelle
  imports Main "HOL-Library.Word"
begin

unbundle bit_operations_syntax

section \<open>The collaborators of \<open>generic_bus\<close>\<close>

text \<open>
  \<open>src/dev/bus/export/dev/bus.hpp\<close> defines the class template \<open>generic_bus<Bus>\<close>.
  The headers it includes (\<open>ecl/err.hpp\<close>, \<open>ecl/assert.h\<close>, \<open>ecl/thread/mutex.hpp\<close>,
  \<open>ecl/thread/semaphore.hpp\<close>) and the platform bus \<open>Bus\<close> are not part of the sources;
  what the class uses of them is modelled in this section.
\<close>

text \<open>
  Modelled from the spec: the error codes of \<open>ecl/err.hpp\<close>. The class names
  \<open>err::ok\<close>, \<open>err::inval\<close>, \<open>err::again\<close> and \<open>err::busy\<close>; every other code is an
  opaque failure of the transport, forwarded unchanged. \<open>is_ok\<close> and \<open>is_error\<close> tell
  \<open>err::ok\<close> from the rest.
\<close>

datatype err = ok | inval | again | busy | other nat

definition is_ok :: "err \<Rightarrow> bool" where
  "is_ok rc = (rc = ok)"

definition is_error :: "err \<Rightarrow> bool" where
  "is_error rc = (rc \<noteq> ok)"

text \<open>
  Modelled from the spec: \<open>Bus::event\<close>, an enumeration with the terminal variant
  \<open>xfer_done\<close>; the other variants are transport-defined.
\<close>

datatype event = xfer_done | other_event nat

text \<open>
  Modelled from the spec: the platform bus \<open>Bus\<close>. The object \<open>m_bus\<close> is opaque, so it
  is represented by the calls the class has made on it, oldest first. The buffer
  bindings of the transport are a function of those calls; the results of
  \<open>Bus::init\<close> and \<open>Bus::do_xfer\<close> and the events the transport delivers are inputs
  of the operations below. A pointer is an address, \<open>0\<close> the null pointer.
\<close>

type_synonym ptr = nat

datatype bus_call =
    Set_handler
  | Bus_init
  | Reset_buffers
  | Set_tx ptr nat
  | Set_rx ptr nat
  | Set_tx_fill nat "8 word"
  | Do_xfer

text \<open>
  \<open>handler_fn\<close> is \<open>std::function<void(event)>\<close>: \<open>None\<close> is the empty function object,
  \<open>Some k\<close> the user's callable number \<open>k\<close>. Calling the empty object does not return
  (\<open>std::bad_function_call\<close>).
\<close>

type_synonym handler_fn = "nat option"

text \<open>
  Modelled from the spec: \<open>ecl_assert\<close> of \<open>ecl/assert.h\<close>. A failed assertion is a
  fatal precondition violation: the call is cut short and returns nothing. So a
  call of the class returns, or is cut short by a fault (a failed \<open>ecl_assert\<close>, a
  call of an empty \<open>std::function\<close>), or blocks for ever on the mutex or on the
  semaphore.
\<close>

datatype fault = Assert_failed | Bad_function_call

datatype 'a outcome = Done 'a | Abort fault | Blocked

definition and_then :: "'a outcome \<Rightarrow> ('a \<Rightarrow> 'b outcome) \<Rightarrow> 'b outcome" where
  "and_then m f = (case m of Done x \<Rightarrow> f x | Abort e \<Rightarrow> Abort e | Blocked \<Rightarrow> Blocked)"

section \<open>The class \<open>generic_bus\<close>\<close>

text \<open>Status flags (lines 186-195).\<close>

definition bus_inited :: "8 word" where
  "bus_inited = 0x1"

definition async_mode :: "8 word" where
  "async_mode = 0x2"

definition bus_locked :: "8 word" where
  "bus_locked = 0x4"

definition xfer_served :: "8 word" where
  "xfer_served = 0x8"

text \<open>
  The data members (lines 197-202). \<open>m_lock\<close> is the mutex (held or free) and
  \<open>m_complete\<close> the binary semaphore (signalled or not). \<open>invoked\<close> is not a member:
  it records, in order, every call \<open>m_handler(type)\<close> of the user's handler.
\<close>

record generic_bus =
  m_bus :: "bus_call list"
  m_lock :: bool
  m_complete :: bool
  m_handler :: handler_fn
  m_cleaned :: bool
  m_state :: "8 word"
  invoked :: "(nat \<times> event) list"

text \<open>The constructor (lines 208-218).\<close>

definition generic_bus_new :: generic_bus where
  "generic_bus_new =
     \<lparr>m_bus = [], m_lock = False, m_complete = False, m_handler = None,
      m_cleaned = False, m_state = 0, invoked = []\<rparr>"

text \<open>\<open>bus_is_busy\<close> (lines 437-448).\<close>

definition bus_is_busy :: "generic_bus \<Rightarrow> bool" where
  "bus_is_busy s =
     (let in_progress = False;
          in_progress =
            (if m_state s AND async_mode \<noteq> 0
             then \<not> (m_state s AND async_mode \<noteq> 0)
             else in_progress)
      in in_progress)"

text \<open>\<open>cleanup\<close> (lines 450-455).\<close>

definition cleanup :: "generic_bus \<Rightarrow> generic_bus" where
  "cleanup s =
     (let s1 = s\<lparr>m_bus := m_bus s @ [Reset_buffers]\<rparr>
      in s1\<lparr>m_handler := None\<rparr>)"

text \<open>
  \<open>m_cleaned.test_and_set()\<close>: sets the flag and returns the value it had.
\<close>

definition test_and_set :: "generic_bus \<Rightarrow> bool \<times> generic_bus" where
  "test_and_set s = (m_cleaned s, s\<lparr>m_cleaned := True\<rparr>)"

text \<open>
  \<open>bus_handler\<close> (lines 399-435), the callback \<open>init\<close> registers with the transport.
\<close>

definition bus_handler :: "event \<Rightarrow> generic_bus \<Rightarrow> generic_bus outcome" where
  "bus_handler type s =
     (let last_event = (type = xfer_done) in
      if last_event \<and> m_state s AND xfer_served \<noteq> 0 then Abort Assert_failed
      else
        let s1 = (if last_event then s\<lparr>m_state := m_state s OR xfer_served\<rparr> else s) in
        and_then
          (if m_state s1 AND async_mode \<noteq> 0 then
             (case m_handler s1 of
                None \<Rightarrow> Abort Bad_function_call
              | Some h \<Rightarrow>
                  let s2 = s1\<lparr>invoked := invoked s1 @ [(h, type)]\<rparr> in
                  if last_event \<and> m_state s2 AND bus_locked = 0 then
                    (case test_and_set s2 of
                       (was_set, s3) \<Rightarrow> Done (if \<not> was_set then cleanup s3 else s3))
                  else Done s2)
           else Done s1)
          (\<lambda>s4. Done (if last_event then s4\<lparr>m_complete := True\<rparr> else s4)))"

text \<open>
  The transport calls \<open>bus_handler\<close> from its own context (an interrupt, most likely),
  between two statements of the thread that uses the bus. \<open>deliver\<close> runs the callback
  on the events that arrive at one such point, in order.
\<close>

fun deliver :: "event list \<Rightarrow> generic_bus \<Rightarrow> generic_bus outcome" where
  "deliver [] s = Done s"
| "deliver (e # es) s =
     (case bus_handler e s of
        Done s' \<Rightarrow> deliver es s'
      | Abort f \<Rightarrow> Abort f
      | Blocked \<Rightarrow> Blocked)"

text \<open>
  Modelled from the spec: \<open>m_complete.wait()\<close> of \<open>ecl::binary_semaphore\<close>. It returns
  once the semaphore is signalled and consumes the signal. While the thread is
  blocked the transport delivers the events \<open>evs\<close>, one by one; when they are used up
  and the semaphore is still not signalled the thread stays blocked.
\<close>

fun wait :: "event list \<Rightarrow> generic_bus \<Rightarrow> generic_bus outcome" where
  "wait [] s = (if m_complete s then Done (s\<lparr>m_complete := False\<rparr>) else Blocked)"
| "wait (e # es) s =
     (if m_complete s then Done (s\<lparr>m_complete := False\<rparr>)
      else case bus_handler e s of
             Done s' \<Rightarrow> wait es s'
           | Abort f \<Rightarrow> Abort f
           | Blocked \<Rightarrow> Blocked)"

text \<open>\<open>init\<close> (lines 226-241); \<open>rc\<close> is what \<open>m_bus.init()\<close> returns.\<close>

definition init :: "err \<Rightarrow> generic_bus \<Rightarrow> (err \<times> generic_bus) outcome" where
  "init rc s =
     (let s1 = s\<lparr>m_bus := m_bus s @ [Set_handler]\<rparr>;
          s2 = s1\<lparr>m_bus := m_bus s1 @ [Bus_init]\<rparr>;
          s3 = (if is_ok rc then s2\<lparr>m_state := m_state s2 OR bus_inited\<rparr> else s2)
      in Done (rc, s3))"

text \<open>
  \<open>lock\<close> (lines 243-258). Modelled from the spec: \<open>m_lock.lock()\<close> of \<open>ecl::mutex\<close>
  acquires the mutex and blocks while it is held; here a mutex that is held is never
  released while this thread waits for it. \<open>evs\<close> are the events delivered while the
  thread waits on the semaphore.
\<close>

definition lock :: "event list \<Rightarrow> generic_bus \<Rightarrow> generic_bus outcome" where
  "lock evs s =
     (if m_state s AND bus_inited = 0 then Abort Assert_failed
      else if m_lock s then Blocked
      else
        let s1 = s\<lparr>m_lock := True\<rparr>;
            s2 = s1\<lparr>m_state := m_state s1 OR bus_locked\<rparr>
        in if m_state s2 AND async_mode \<noteq> 0 then wait evs s2 else Done s2)"

text \<open>
  \<open>unlock\<close> (lines 260-293). \<open>isr\<close> are the events the transport delivers right after
  the lock flag is cleared and before the cleanup is decided, the interleaving the
  comments at lines 267-271 and 417-421 describe.
\<close>

definition unlock :: "event list \<Rightarrow> generic_bus \<Rightarrow> generic_bus outcome" where
  "unlock isr s =
     (if m_state s AND bus_locked = 0 then Abort Assert_failed
      else
        and_then (deliver isr (s\<lparr>m_state := m_state s AND NOT bus_locked\<rparr>))
          (\<lambda>s1.
             let s2 =
               (if m_state s1 AND async_mode \<noteq> 0 then
                  (if m_state s1 AND xfer_served \<noteq> 0 then
                     (case test_and_set s1 of
                        (was_set, s') \<Rightarrow> if \<not> was_set then cleanup s' else s')
                   else s1)
                else cleanup s1)
             in Done (s2\<lparr>m_lock := False\<rparr>)))"

text \<open>\<open>set_buffers(tx, rx, size)\<close> (lines 295-315).\<close>

definition set_buffers :: "ptr \<Rightarrow> ptr \<Rightarrow> nat \<Rightarrow> generic_bus \<Rightarrow> (err \<times> generic_bus) outcome" where
  "set_buffers tx rx sz s =
     (if m_state s AND bus_locked = 0 then Abort Assert_failed
      else if tx = 0 \<and> rx = 0 then Done (inval, s)
      else if bus_is_busy s then Done (again, s)
      else Done (ok, s\<lparr>m_bus := m_bus s @ [Reset_buffers, Set_tx tx sz, Set_rx rx sz]\<rparr>))"

text \<open>\<open>set_buffers(size, fill_byte)\<close> (lines 317-331).\<close>

definition set_buffers_fill :: "nat \<Rightarrow> 8 word \<Rightarrow> generic_bus \<Rightarrow> (err \<times> generic_bus) outcome" where
  "set_buffers_fill sz fill_byte s =
     (if m_state s AND bus_locked = 0 then Abort Assert_failed
      else if bus_is_busy s then Done (again, s)
      else Done (ok, s\<lparr>m_bus := m_bus s @ [Reset_buffers, Set_tx_fill sz fill_byte]\<rparr>))"

text \<open>
  Blocking \<open>xfer()\<close> (lines 333-364). \<open>xfer_call\<close> is the state in which it calls
  \<open>m_bus.do_xfer()\<close>: the statements of lines 344-351 have run and the call is
  recorded. \<open>rc\<close> is what \<open>do_xfer\<close> returns, \<open>evs\<close> the events delivered from then on
  while the thread waits.
\<close>

definition xfer_call :: "generic_bus \<Rightarrow> generic_bus" where
  "xfer_call s =
     (let s1 = s\<lparr>m_state := m_state s AND NOT async_mode\<rparr>;
          s2 = s1\<lparr>m_state := m_state s1 AND NOT xfer_served\<rparr>;
          s3 = s2\<lparr>m_complete := False\<rparr>
      in s3\<lparr>m_bus := m_bus s3 @ [Do_xfer]\<rparr>)"

definition xfer :: "err \<Rightarrow> event list \<Rightarrow> generic_bus \<Rightarrow> (err \<times> generic_bus) outcome" where
  "xfer rc evs s =
     (if m_state s AND bus_locked = 0 then Abort Assert_failed
      else if bus_is_busy s then Done (busy, s)
      else
        let s4 = xfer_call s in
        if \<not> is_error rc then and_then (wait evs s4) (\<lambda>s5. Done (rc, s5))
        else Done (rc, s4\<lparr>m_state := m_state s4 OR xfer_served\<rparr>))"

text \<open>
  Event-driven \<open>xfer(handler)\<close> (lines 366-395). \<open>xfer_async_call\<close> is the state in
  which it calls \<open>m_bus.do_xfer()\<close> (lines 378-382). \<open>early\<close> are the events the
  transport delivers after the transfer is started and before the thread gets to
  line 384.
\<close>

definition xfer_async_call :: "handler_fn \<Rightarrow> generic_bus \<Rightarrow> generic_bus" where
  "xfer_async_call handler s =
     (let s1 = s\<lparr>m_state := m_state s OR async_mode\<rparr>;
          s2 = s1\<lparr>m_handler := handler\<rparr>
      in s2\<lparr>m_bus := m_bus s2 @ [Do_xfer]\<rparr>)"

definition xfer_async ::
  "handler_fn \<Rightarrow> err \<Rightarrow> event list \<Rightarrow> generic_bus \<Rightarrow> (err \<times> generic_bus) outcome" where
  "xfer_async handler rc early s =
     (if m_state s AND bus_locked = 0 then Abort Assert_failed
      else if bus_is_busy s then Done (busy, s)
      else
        and_then (deliver early (xfer_async_call handler s))
          (\<lambda>s3.
             if is_error rc then
               (let s4 = s3\<lparr>m_state := m_state s3 OR xfer_served\<rparr>
                in Done (rc, s4\<lparr>m_state := m_state s4 AND NOT async_mode\<rparr>))
             else Done (rc, s3\<lparr>m_state := m_state s3 AND NOT xfer_served\<rparr>)))"

section \<open>Calling the class\<close>

text \<open>
  A client of the class is a sequence of calls. \<open>Irq e\<close> is the transport delivering
  the event \<open>e\<close> through the registered callback between two calls of the client.
  \<open>run\<close> makes the calls in order and collects what they return; it stops at the
  first call that does not return.
\<close>

datatype call =
    Init err
  | Lock "event list"
  | Unlock "event list"
  | Set_buffers ptr ptr nat
  | Set_buffers_fill nat "8 word"
  | Xfer err "event list"
  | Xfer_async handler_fn err "event list"
  | Irq event

datatype ret = Void | Ret err

definition returning :: "(err \<times> generic_bus) outcome \<Rightarrow> (ret \<times> generic_bus) outcome" where
  "returning m = and_then m (\<lambda>(rc, s). Done (Ret rc, s))"

definition returning_void :: "generic_bus outcome \<Rightarrow> (ret \<times> generic_bus) outcome" where
  "returning_void m = and_then m (\<lambda>s. Done (Void, s))"

fun do_call :: "call \<Rightarrow> generic_bus \<Rightarrow> (ret \<times> generic_bus) outcome" where
  "do_call (Init rc) s = returning (init rc s)"
| "do_call (Lock evs) s = returning_void (lock evs s)"
| "do_call (Unlock isr) s = returning_void (unlock isr s)"
| "do_call (Set_buffers tx rx sz) s = returning (set_buffers tx rx sz s)"
| "do_call (Set_buffers_fill sz fill_byte) s = returning (set_buffers_fill sz fill_byte s)"
| "do_call (Xfer rc evs) s = returning (xfer rc evs s)"
| "do_call (Xfer_async handler rc early) s = returning (xfer_async handler rc early s)"
| "do_call (Irq e) s = returning_void (bus_handler e s)"

fun run :: "call list \<Rightarrow> generic_bus \<Rightarrow> (ret list \<times> generic_bus) outcome" where
  "run [] s = Done ([], s)"
| "run (c # cs) s =
     (case do_call c s of
        Done (r, s') \<Rightarrow>
          (case run cs s' of
             Done (rs, s'') \<Rightarrow> Done (r # rs, s'')
           | Abort f \<Rightarrow> Abort f
           | Blocked \<Rightarrow> Blocked)
      | Abort f \<Rightarrow> Abort f
      | Blocked \<Rightarrow> Blocked)"

text \<open>
  Three states a client reaches, used as concrete inputs below: the bus after
  \<open>init\<close> and \<open>lock\<close>; the bus with an event-driven transfer issued and its terminal
  event still to come; the bus after a blocking transfer has completed.
\<close>

definition locked_bus :: generic_bus where
  "locked_bus =
     \<lparr>m_bus = [Set_handler, Bus_init], m_lock = True, m_complete = False, m_handler = None,
      m_cleaned = False, m_state = 5, invoked = []\<rparr>"

definition outstanding_bus :: generic_bus where
  "outstanding_bus =
     \<lparr>m_bus = [Set_handler, Bus_init, Reset_buffers, Set_tx 1 2, Set_rx 2 2, Do_xfer],
      m_lock = True, m_complete = False, m_handler = Some 0, m_cleaned = False, m_state = 7,
      invoked = []\<rparr>"

definition completed_bus :: generic_bus where
  "completed_bus =
     \<lparr>m_bus = [Set_handler, Bus_init, Reset_buffers, Set_tx 1 2, Set_rx 2 2, Do_xfer],
      m_lock = True, m_complete = False, m_handler = None, m_cleaned = False, m_state = 13,
      invoked = []\<rparr>"

section \<open>Flags\<close>

lemmas flag_defs = bus_inited_def async_mode_def bus_locked_def xfer_served_def

lemmas op_defs = init_def lock_def unlock_def set_buffers_def set_buffers_fill_def xfer_def
  xfer_async_def xfer_call_def xfer_async_call_def bus_handler_def cleanup_def test_and_set_def
  bus_is_busy_def and_then_def returning_def returning_void_def is_ok_def is_error_def
  generic_bus_new_def Let_def

lemmas state_defs = locked_bus_def outstanding_bus_def completed_bus_def

lemma flag_nonzero:
  "bus_inited \<noteq> 0" "async_mode \<noteq> 0" "bus_locked \<noteq> 0" "xfer_served \<noteq> 0"
  by (simp_all add: flag_defs)

lemma flag_set_same:
  "(w OR bus_inited) AND bus_inited \<noteq> 0"
  "(w OR async_mode) AND async_mode \<noteq> 0"
  "(w OR bus_locked) AND bus_locked \<noteq> 0"
  "(w OR xfer_served) AND xfer_served \<noteq> 0"
  by (simp_all add: flag_defs bit.conj_disj_distrib2)

lemma flag_clear_same:
  "(w AND NOT async_mode) AND async_mode = 0"
  "(w AND NOT bus_locked) AND bus_locked = 0"
  "(w AND NOT xfer_served) AND xfer_served = 0"
  by (simp_all add: flag_defs and.assoc)

lemma flag_set_other:
  "(w OR bus_inited) AND async_mode = w AND async_mode"
  "(w OR bus_inited) AND bus_locked = w AND bus_locked"
  "(w OR bus_inited) AND xfer_served = w AND xfer_served"
  "(w OR async_mode) AND bus_inited = w AND bus_inited"
  "(w OR async_mode) AND bus_locked = w AND bus_locked"
  "(w OR async_mode) AND xfer_served = w AND xfer_served"
  "(w OR bus_locked) AND bus_inited = w AND bus_inited"
  "(w OR bus_locked) AND async_mode = w AND async_mode"
  "(w OR bus_locked) AND xfer_served = w AND xfer_served"
  "(w OR xfer_served) AND bus_inited = w AND bus_inited"
  "(w OR xfer_served) AND async_mode = w AND async_mode"
  "(w OR xfer_served) AND bus_locked = w AND bus_locked"
  by (simp_all add: flag_defs bit.conj_disj_distrib2)

lemma flag_clear_other:
  "(w AND NOT async_mode) AND bus_inited = w AND bus_inited"
  "(w AND NOT async_mode) AND bus_locked = w AND bus_locked"
  "(w AND NOT async_mode) AND xfer_served = w AND xfer_served"
  "(w AND NOT bus_locked) AND bus_inited = w AND bus_inited"
  "(w AND NOT bus_locked) AND async_mode = w AND async_mode"
  "(w AND NOT bus_locked) AND xfer_served = w AND xfer_served"
  "(w AND NOT xfer_served) AND bus_inited = w AND bus_inited"
  "(w AND NOT xfer_served) AND async_mode = w AND async_mode"
  "(w AND NOT xfer_served) AND bus_locked = w AND bus_locked"
  by (simp_all add: flag_defs and.assoc)

lemmas flag_simps = flag_nonzero flag_set_same flag_clear_same flag_set_other flag_clear_other

section \<open>The concrete states are reached\<close>

lemma locked_bus_reached:
  "run [Init ok, Lock []] generic_bus_new = Done ([Ret ok, Void], locked_bus)"
  by (simp add: op_defs flag_defs state_defs)

lemma outstanding_bus_reached:
  "run [Set_buffers 1 2 2, Xfer_async (Some 0) ok []] locked_bus
     = Done ([Ret ok, Ret ok], outstanding_bus)"
  by (simp add: op_defs flag_defs state_defs)

lemma completed_bus_reached:
  "run [Set_buffers 1 2 2, Xfer ok [xfer_done]] locked_bus
     = Done ([Ret ok, Ret ok], completed_bus)"
  by (simp add: op_defs flag_defs state_defs)

lemma locked_bus_locked: "m_state locked_bus AND bus_locked \<noteq> 0"
  by (simp add: locked_bus_def bus_locked_def)

lemma outstanding_bus_locked: "m_state outstanding_bus AND bus_locked \<noteq> 0"
  by (simp add: outstanding_bus_def bus_locked_def)

section \<open>The callback and the semaphore\<close>

lemma bus_is_busy_False: "bus_is_busy s = False"
  by (simp add: bus_is_busy_def)

lemma bus_handler_blocking_other:
  "m_state s AND async_mode = 0 \<Longrightarrow> bus_handler (other_event n) s = Done s"
  by (simp add: bus_handler_def and_then_def)

lemma bus_handler_blocking_done:
  "m_state s AND async_mode = 0 \<Longrightarrow> m_state s AND xfer_served = 0 \<Longrightarrow>
   bus_handler xfer_done s = Done (s\<lparr>m_state := m_state s OR xfer_served, m_complete := True\<rparr>)"
  by (simp add: bus_handler_def and_then_def flag_simps)

lemma bus_handler_m_state:
  assumes "bus_handler e s = Done s'"
  shows "m_state s' = (if e = xfer_done then m_state s OR xfer_served else m_state s)"
  using assms
  by (auto simp add: bus_handler_def and_then_def Let_def test_and_set_def cleanup_def
      split: if_splits option.splits)

lemma deliver_locked:
  "deliver evs s = Done s' \<Longrightarrow> m_state s' AND bus_locked = m_state s AND bus_locked"
proof (induction evs arbitrary: s)
  case Nil
  then show ?case by simp
next
  case (Cons e es)
  then obtain s1 where h: "bus_handler e s = Done s1" and d: "deliver es s1 = Done s'"
    by (auto split: outcome.splits)
  from bus_handler_m_state [OF h] have "m_state s1 AND bus_locked = m_state s AND bus_locked"
    by (simp add: flag_simps)
  with Cons.IH [OF d] show ?case by simp
qed

lemma wait_signalled: "m_complete s \<Longrightarrow> wait evs s = Done (s\<lparr>m_complete := False\<rparr>)"
  by (cases evs) simp_all

text \<open>
  In blocking mode the callback leaves every event but the terminal one without
  effect, so a waiting thread wakes up exactly when the terminal event is among the
  events delivered.
\<close>

lemma wait_blocking:
  assumes "m_state s AND async_mode = 0" and "m_state s AND xfer_served = 0" and "\<not> m_complete s"
  shows "wait evs s =
    (if xfer_done \<in> set evs
     then Done (s\<lparr>m_state := m_state s OR xfer_served, m_complete := False\<rparr>)
     else Blocked)"
  using assms
proof (induction evs)
  case Nil
  then show ?case by simp
next
  case (Cons e es)
  show ?case
  proof (cases e)
    case xfer_done
    with Cons.prems show ?thesis
      by (simp add: bus_handler_blocking_done wait_signalled)
  next
    case (other_event n)
    with Cons show ?thesis
      by (simp add: bus_handler_blocking_other)
  qed
qed

section \<open>The busy check\<close>

text \<open>
  C1. The specification: \<open>bus_is_busy()\<close> is true exactly while \<open>async_mode\<close> is set and
  the terminal event has not been served, so that \<open>xfer()\<close> issued in that state
  returns \<open>err::busy\<close>. The code at lines 442-445 tests \<open>async_mode\<close> and then assigns
  the negation of the very same test, so the check is false in every state
  (\<open>bus_is_busy_False\<close>). Evaluated on the bus with an event-driven transfer
  outstanding: \<open>async_mode\<close> is set, \<open>xfer_served\<close> is clear, the check says "not
  busy", and neither form of \<open>xfer\<close> returns \<open>err::busy\<close>: blocking \<open>xfer()\<close> starts a
  second transfer and waits, event-driven \<open>xfer(handler)\<close> starts a second transfer
  and replaces the stored handler.
\<close>

theorem xfer_while_outstanding_not_busy:
  "run [Init ok, Lock [], Set_buffers 1 2 2, Xfer_async (Some 0) ok []] generic_bus_new
     = Done ([Ret ok, Void, Ret ok, Ret ok], outstanding_bus) \<and>
   m_state outstanding_bus AND async_mode \<noteq> 0 \<and>
   m_state outstanding_bus AND xfer_served = 0 \<and>
   bus_is_busy outstanding_bus = False \<and>
   xfer ok [] outstanding_bus = Blocked \<and>
   xfer ok [xfer_done] outstanding_bus =
     Done (ok,
       \<lparr>m_bus = [Set_handler, Bus_init, Reset_buffers, Set_tx 1 2, Set_rx 2 2, Do_xfer, Do_xfer],
        m_lock = True, m_complete = False, m_handler = Some 0, m_cleaned = False,
        m_state = 13, invoked = []\<rparr>) \<and>
   xfer_async (Some 1) ok [] outstanding_bus =
     Done (ok,
       \<lparr>m_bus = [Set_handler, Bus_init, Reset_buffers, Set_tx 1 2, Set_rx 2 2, Do_xfer, Do_xfer],
        m_lock = True, m_complete = False, m_handler = Some 1, m_cleaned = False,
        m_state = 7, invoked = []\<rparr>)"
  by (simp add: op_defs flag_defs state_defs)

section \<open>The cleanup flag\<close>

text \<open>
  Nothing in the class clears \<open>m_cleaned\<close>: once set it stays set, whatever the client
  calls and whatever the transport delivers.
\<close>

lemma bus_handler_cleaned:
  "bus_handler e s = Done s' \<Longrightarrow> m_cleaned s \<Longrightarrow> m_cleaned s'"
  by (auto simp add: bus_handler_def and_then_def Let_def test_and_set_def cleanup_def
      split: if_splits option.splits)

lemma deliver_cleaned:
  "deliver evs s = Done s' \<Longrightarrow> m_cleaned s \<Longrightarrow> m_cleaned s'"
proof (induction evs arbitrary: s)
  case Nil
  then show ?case by simp
next
  case (Cons e es)
  then obtain s1 where h: "bus_handler e s = Done s1" and d: "deliver es s1 = Done s'"
    by (auto split: outcome.splits)
  from bus_handler_cleaned [OF h Cons.prems(2)] Cons.IH [OF d] show ?case by simp
qed

lemma wait_cleaned:
  "wait evs s = Done s' \<Longrightarrow> m_cleaned s \<Longrightarrow> m_cleaned s'"
proof (induction evs arbitrary: s)
  case Nil
  then show ?case by (auto split: if_splits)
next
  case (Cons e es)
  show ?case
  proof (cases "m_complete s")
    case True
    with Cons.prems show ?thesis by auto
  next
    case False
    with Cons.prems obtain s1 where h: "bus_handler e s = Done s1" and w: "wait es s1 = Done s'"
      by (auto split: outcome.splits)
    from bus_handler_cleaned [OF h Cons.prems(2)] Cons.IH [OF w] show ?thesis by simp
  qed
qed

lemma do_call_cleaned:
  assumes "do_call c s = Done (r, s')" and "m_cleaned s"
  shows "m_cleaned s'"
proof (cases c)
  case (Init rc)
  with assms show ?thesis
    by (auto simp add: returning_def and_then_def init_def Let_def)
next
  case (Lock evs)
  with assms show ?thesis
    by (auto simp add: returning_void_def and_then_def lock_def Let_def
        split: if_splits outcome.splits dest: wait_cleaned)
next
  case (Unlock isr)
  with assms show ?thesis
    by (auto simp add: returning_void_def and_then_def unlock_def Let_def test_and_set_def
        cleanup_def split: if_splits outcome.splits dest: deliver_cleaned)
next
  case (Set_buffers tx rx sz)
  with assms show ?thesis
    by (auto simp add: returning_def and_then_def set_buffers_def split: if_splits)
next
  case (Set_buffers_fill sz b)
  with assms show ?thesis
    by (auto simp add: returning_def and_then_def set_buffers_fill_def split: if_splits)
next
  case (Xfer rc evs)
  with assms show ?thesis
    by (auto simp add: returning_def and_then_def xfer_def xfer_call_def Let_def
        split: if_splits outcome.splits dest: wait_cleaned)
next
  case (Xfer_async h rc early)
  with assms show ?thesis
    by (auto simp add: returning_def and_then_def xfer_async_def xfer_async_call_def Let_def
        split: if_splits outcome.splits dest: deliver_cleaned)
next
  case (Irq e)
  with assms show ?thesis
    by (auto simp add: returning_void_def and_then_def split: outcome.splits
        dest: bus_handler_cleaned)
qed

lemma run_cleaned:
  "run cs s = Done (rs, s') \<Longrightarrow> m_cleaned s \<Longrightarrow> m_cleaned s'"
proof (induction cs arbitrary: s rs)
  case Nil
  then show ?case by simp
next
  case (Cons c cs)
  then obtain r s1 rs1 where c: "do_call c s = Done (r, s1)" and r: "run cs s1 = Done (rs1, s')"
    by (auto split: outcome.splits prod.splits)
  from do_call_cleaned [OF c Cons.prems(2)] Cons.IH [OF r] show ?case by simp
qed

lemma xfer_async_keeps_cleaned:
  "xfer_async handler rc [] s = Done (r, s') \<Longrightarrow> m_cleaned s' = m_cleaned s"
  by (auto simp add: xfer_async_def xfer_async_call_def and_then_def Let_def split: if_splits)

text \<open>
  C2. The specification: \<open>m_cleaned\<close> is reset at the start of every event-driven
  transfer, so that cleanup can run again in the next lifecycle. The code never
  clears the flag (\<open>run_cleaned\<close>, \<open>xfer_async_keeps_cleaned\<close>). Evaluated on two
  event-driven lifecycles in a row: the first ends with the cleanup (\<open>unlock\<close> wins
  the test-and-set); the second \<open>xfer(handler)\<close> is issued with \<open>m_cleaned\<close> still
  set, and after its terminal event and \<open>unlock\<close> the buffers bound for it are still
  bound (the last calls on the transport are \<open>set_tx\<close>, \<open>set_rx\<close>, \<open>do_xfer\<close>) and its
  handler is still stored.
\<close>

theorem second_lifecycle_not_cleaned:
  "run [Init ok, Lock [], Set_buffers 1 2 2, Xfer_async (Some 0) ok [], Irq xfer_done, Unlock [],
        Lock [], Set_buffers 3 4 2, Xfer_async (Some 1) ok []] generic_bus_new
     = Done ([Ret ok, Void, Ret ok, Ret ok, Void, Void, Void, Ret ok, Ret ok],
         \<lparr>m_bus = [Set_handler, Bus_init, Reset_buffers, Set_tx 1 2, Set_rx 2 2, Do_xfer,
                   Reset_buffers, Reset_buffers, Set_tx 3 2, Set_rx 4 2, Do_xfer],
          m_lock = True, m_complete = False, m_handler = Some 1, m_cleaned = True,
          m_state = 7, invoked = [(0, xfer_done)]\<rparr>) \<and>
   run [Init ok, Lock [], Set_buffers 1 2 2, Xfer_async (Some 0) ok [], Irq xfer_done, Unlock [],
        Lock [], Set_buffers 3 4 2, Xfer_async (Some 1) ok [], Irq xfer_done, Unlock []]
       generic_bus_new
     = Done ([Ret ok, Void, Ret ok, Ret ok, Void, Void, Void, Ret ok, Ret ok, Void, Void],
         \<lparr>m_bus = [Set_handler, Bus_init, Reset_buffers, Set_tx 1 2, Set_rx 2 2, Do_xfer,
                   Reset_buffers, Reset_buffers, Set_tx 3 2, Set_rx 4 2, Do_xfer],
          m_lock = False, m_complete = True, m_handler = Some 1, m_cleaned = True,
          m_state = 11, invoked = [(0, xfer_done), (1, xfer_done)]\<rparr>)"
  by (simp add: op_defs flag_defs)

section \<open>Issuing a transfer\<close>

lemma xfer_call_clears_served: "m_state (xfer_call s) AND xfer_served = 0"
  by (simp add: xfer_call_def Let_def flag_simps)

lemma xfer_async_call_keeps_served:
  "m_state (xfer_async_call handler s) AND xfer_served = m_state s AND xfer_served"
  by (simp add: xfer_async_call_def Let_def flag_simps)

text \<open>
  C3. The specification: both forms of \<open>xfer\<close> clear \<open>xfer_served\<close> before they call
  \<open>do_xfer\<close>. Blocking \<open>xfer()\<close> does (line 348, before line 353). Event-driven
  \<open>xfer(handler)\<close> clears the flag at line 391 only, after \<open>do_xfer\<close> has returned:
  it calls \<open>do_xfer\<close> with the flag as it found it (\<open>xfer_async_call_keeps_served\<close>).
  Evaluated on the bus after a completed blocking transfer: when \<open>xfer(handler)\<close>
  calls \<open>do_xfer\<close> the flag is still set, and a terminal event that arrives before
  line 384 fails the assertion of line 406. On a bus whose flag was clear, the same
  early terminal event is served (the handler runs) and line 391 then clears
  \<open>xfer_served\<close> again.
\<close>

theorem xfer_async_calls_do_xfer_with_served_set:
  "run [Init ok, Lock [], Set_buffers 1 2 2, Xfer ok [xfer_done]] generic_bus_new
     = Done ([Ret ok, Void, Ret ok, Ret ok], completed_bus) \<and>
   m_state completed_bus AND xfer_served \<noteq> 0 \<and>
   m_state (xfer_call completed_bus) AND xfer_served = 0 \<and>
   m_state (xfer_async_call (Some 0) completed_bus) AND xfer_served \<noteq> 0 \<and>
   xfer_async (Some 0) ok [xfer_done] completed_bus = Abort Assert_failed \<and>
   xfer_async (Some 0) ok [xfer_done] locked_bus =
     Done (ok,
       \<lparr>m_bus = [Set_handler, Bus_init, Do_xfer], m_lock = True, m_complete = True,
        m_handler = Some 0, m_cleaned = False, m_state = 7, invoked = [(0, xfer_done)]\<rparr>)"
  by (simp add: op_defs flag_defs state_defs)

section \<open>Binding buffers\<close>

text \<open>
  C4. The specification: while an event-driven transfer is outstanding both forms
  of \<open>set_buffers\<close> return the busy error and leave the bindings of the transport
  alone. Both test \<open>bus_is_busy()\<close>, which is false in every state, so the branch is
  never taken (and it would return \<open>err::again\<close>, not the \<open>err::busy\<close> the comments at
  lines 103 and 125 promise). Evaluated on the bus with an event-driven transfer
  outstanding: both forms return \<open>err::ok\<close> and call \<open>reset_buffers\<close> and
  \<open>set_tx\<close>/\<open>set_rx\<close> on the transport.
\<close>

theorem set_buffers_while_outstanding_rebinds:
  "run [Init ok, Lock [], Set_buffers 1 2 2, Xfer_async (Some 0) ok []] generic_bus_new
     = Done ([Ret ok, Void, Ret ok, Ret ok], outstanding_bus) \<and>
   m_state outstanding_bus AND async_mode \<noteq> 0 \<and>
   m_state outstanding_bus AND xfer_served = 0 \<and>
   set_buffers 3 4 5 outstanding_bus =
     Done (ok, outstanding_bus
       \<lparr>m_bus := m_bus outstanding_bus @ [Reset_buffers, Set_tx 3 5, Set_rx 4 5]\<rparr>) \<and>
   set_buffers_fill 6 0xff outstanding_bus =
     Done (ok, outstanding_bus
       \<lparr>m_bus := m_bus outstanding_bus @ [Reset_buffers, Set_tx_fill 6 0xff]\<rparr>)"
  by (simp add: op_defs flag_defs state_defs)

section \<open>Transfers\<close>

text \<open>
  C5. When the bus is locked and \<open>do_xfer\<close> reports an error, event-driven
  \<open>xfer(handler)\<close> returns that error with \<open>xfer_served\<close> set and \<open>async_mode\<close> clear,
  so the bus is not busy: neither by \<open>bus_is_busy\<close> nor by the flags themselves
  (\<open>async_mode\<close> set and \<open>xfer_served\<close> clear). With no event delivered during the
  call it does return, in the state given; whatever events are delivered during the
  call, if it returns it returns so.
\<close>

theorem xfer_async_transport_error:
  assumes "m_state s AND bus_locked \<noteq> 0" and "is_error rc"
  shows "xfer_async handler rc [] s =
           Done (rc, (xfer_async_call handler s)
             \<lparr>m_state := (m_state (xfer_async_call handler s) OR xfer_served)
                           AND NOT async_mode\<rparr>) \<and>
         (xfer_async handler rc early s = Done (r, s') \<longrightarrow>
            r = rc \<and> m_state s' AND xfer_served \<noteq> 0 \<and> m_state s' AND async_mode = 0 \<and>
            \<not> bus_is_busy s')"
  using assms
  by (auto simp add: xfer_async_def bus_is_busy_False and_then_def Let_def flag_simps
      split: outcome.splits)

theorem xfer_async_transport_error_witness:
  "m_state locked_bus AND bus_locked \<noteq> 0 \<and> is_error (other 1) \<and>
   xfer_async (Some 0) (other 1) [] locked_bus =
     Done (other 1,
       \<lparr>m_bus = [Set_handler, Bus_init, Do_xfer], m_lock = True, m_complete = False,
        m_handler = Some 0, m_cleaned = False, m_state = 13, invoked = []\<rparr>) \<and>
   (13 :: 8 word) AND xfer_served \<noteq> 0 \<and> (13 :: 8 word) AND async_mode = 0"
proof -
  have err: "is_error (other 1)"
    by (simp add: is_error_def)
  from xfer_async_transport_error [OF locked_bus_locked err, of "Some 0" "[]"]
  have "xfer_async (Some 0) (other 1) [] locked_bus =
     Done (other 1, (xfer_async_call (Some 0) locked_bus)
       \<lparr>m_state := (m_state (xfer_async_call (Some 0) locked_bus) OR xfer_served)
                     AND NOT async_mode\<rparr>)"
    by simp
  with locked_bus_locked err show ?thesis
    by (simp add: xfer_async_call_def locked_bus_def flag_defs Let_def)
qed

text \<open>
  C6. When the bus is locked, blocking \<open>xfer()\<close> calls \<open>do_xfer\<close> with \<open>async_mode\<close>
  clear. If \<open>do_xfer\<close> reports an error, \<open>xfer()\<close> returns it with \<open>xfer_served\<close> set,
  without waiting: it returns whatever events follow, also none. If \<open>do_xfer\<close>
  succeeds, \<open>xfer()\<close> waits on the semaphore: it returns the result of \<open>do_xfer\<close>,
  with \<open>xfer_served\<close> set, if the terminal event is among the events delivered, and
  never returns if it is not.
\<close>

theorem xfer_blocking:
  assumes "m_state s AND bus_locked \<noteq> 0"
  shows "m_state (xfer_call s) AND async_mode = 0 \<and>
         (m_state (xfer_call s) OR xfer_served) AND async_mode = 0 \<and>
         (m_state (xfer_call s) OR xfer_served) AND xfer_served \<noteq> 0 \<and>
         xfer rc evs s =
           (if is_error rc then
              Done (rc, (xfer_call s)\<lparr>m_state := m_state (xfer_call s) OR xfer_served\<rparr>)
            else if xfer_done \<in> set evs then
              Done (rc, (xfer_call s)\<lparr>m_state := m_state (xfer_call s) OR xfer_served\<rparr>)
            else Blocked)"
proof -
  have a: "m_state (xfer_call s) AND async_mode = 0"
    by (simp add: xfer_call_def Let_def flag_simps)
  have b: "m_state (xfer_call s) AND xfer_served = 0"
    by (simp add: xfer_call_def Let_def flag_simps)
  have c: "\<not> m_complete (xfer_call s)"
    by (simp add: xfer_call_def Let_def)
  have d: "(xfer_call s)\<lparr>m_state := w, m_complete := False\<rparr> = (xfer_call s)\<lparr>m_state := w\<rparr>"
    for w
    by (simp add: xfer_call_def Let_def)
  show ?thesis
    using assms a
    by (simp add: xfer_def bus_is_busy_False wait_blocking [OF a b c] and_then_def d Let_def
        flag_simps)
qed

theorem xfer_blocking_witness:
  "m_state locked_bus AND bus_locked \<noteq> 0 \<and>
   xfer (other 1) [] locked_bus =
     Done (other 1,
       \<lparr>m_bus = [Set_handler, Bus_init, Do_xfer], m_lock = True, m_complete = False,
        m_handler = None, m_cleaned = False, m_state = 13, invoked = []\<rparr>) \<and>
   xfer ok [other_event 0, xfer_done] locked_bus =
     Done (ok,
       \<lparr>m_bus = [Set_handler, Bus_init, Do_xfer], m_lock = True, m_complete = False,
        m_handler = None, m_cleaned = False, m_state = 13, invoked = []\<rparr>) \<and>
   xfer ok [other_event 0] locked_bus = Blocked"
proof -
  from xfer_blocking [OF locked_bus_locked, of "other 1" "[]"]
    xfer_blocking [OF locked_bus_locked, of ok "[other_event 0, xfer_done]"]
    xfer_blocking [OF locked_bus_locked, of ok "[other_event 0]"]
    locked_bus_locked
  show ?thesis
    by (simp add: is_error_def xfer_call_def locked_bus_def flag_defs Let_def)
qed

section \<open>Releasing the bus\<close>

text \<open>
  C7. \<open>unlock()\<close> on a locked bus. \<open>s1\<close> is the state in which the cleanup is decided:
  the lock flag has been cleared and the events \<open>isr\<close> have been served since. In
  \<open>s1\<close> the lock flag is still clear. In blocking mode \<open>unlock\<close> runs the cleanup; in
  async mode with \<open>xfer_served\<close> clear it does nothing; in async mode with
  \<open>xfer_served\<close> set it sets \<open>m_cleaned\<close> and runs the cleanup only if the flag was
  clear before. Last, it releases the mutex.
\<close>

theorem unlock_cleanup_decision:
  assumes "m_state s AND bus_locked \<noteq> 0"
    and "deliver isr (s\<lparr>m_state := m_state s AND NOT bus_locked\<rparr>) = Done s1"
  shows "m_state s1 AND bus_locked = 0 \<and>
         unlock isr s = Done
           ((if m_state s1 AND async_mode = 0 then cleanup s1
             else if m_state s1 AND xfer_served = 0 then s1
             else if m_cleaned s1 then s1\<lparr>m_cleaned := True\<rparr>
             else cleanup (s1\<lparr>m_cleaned := True\<rparr>))\<lparr>m_lock := False\<rparr>)"
proof -
  from deliver_locked [OF assms(2)] have "m_state s1 AND bus_locked = 0"
    by (simp add: flag_simps)
  then show ?thesis
    using assms by (simp add: unlock_def and_then_def test_and_set_def Let_def)
qed

theorem unlock_cleanup_decision_witness:
  "m_state locked_bus AND bus_locked \<noteq> 0 \<and>
   deliver [] (locked_bus\<lparr>m_state := m_state locked_bus AND NOT bus_locked\<rparr>)
     = Done (locked_bus\<lparr>m_state := 1\<rparr>) \<and>
   unlock [] locked_bus =
     Done \<lparr>m_bus = [Set_handler, Bus_init, Reset_buffers], m_lock = False, m_complete = False,
           m_handler = None, m_cleaned = False, m_state = 1, invoked = []\<rparr> \<and>
   m_state outstanding_bus AND bus_locked \<noteq> 0 \<and>
   deliver [] (outstanding_bus\<lparr>m_state := m_state outstanding_bus AND NOT bus_locked\<rparr>)
     = Done (outstanding_bus\<lparr>m_state := 3\<rparr>) \<and>
   unlock [] outstanding_bus = Done (outstanding_bus\<lparr>m_state := 3, m_lock := False\<rparr>) \<and>
   deliver [xfer_done] (outstanding_bus\<lparr>m_state := m_state outstanding_bus AND NOT bus_locked\<rparr>)
     = Done \<lparr>m_bus = [Set_handler, Bus_init, Reset_buffers, Set_tx 1 2, Set_rx 2 2, Do_xfer,
                     Reset_buffers],
             m_lock = True, m_complete = True, m_handler = None, m_cleaned = True,
             m_state = 11, invoked = [(0, xfer_done)]\<rparr> \<and>
   unlock [xfer_done] outstanding_bus =
     Done \<lparr>m_bus = [Set_handler, Bus_init, Reset_buffers, Set_tx 1 2, Set_rx 2 2, Do_xfer,
                   Reset_buffers],
           m_lock = False, m_complete = True, m_handler = None, m_cleaned = True,
           m_state = 11, invoked = [(0, xfer_done)]\<rparr>"
proof -
  have d1: "deliver [] (locked_bus\<lparr>m_state := m_state locked_bus AND NOT bus_locked\<rparr>)
     = Done (locked_bus\<lparr>m_state := 1\<rparr>)"
    by (simp add: locked_bus_def flag_defs)
  have d2: "deliver [] (outstanding_bus\<lparr>m_state := m_state outstanding_bus AND NOT bus_locked\<rparr>)
     = Done (outstanding_bus\<lparr>m_state := 3\<rparr>)"
    by (simp add: outstanding_bus_def flag_defs)
  have d3: "deliver [xfer_done]
       (outstanding_bus\<lparr>m_state := m_state outstanding_bus AND NOT bus_locked\<rparr>)
     = Done \<lparr>m_bus = [Set_handler, Bus_init, Reset_buffers, Set_tx 1 2, Set_rx 2 2, Do_xfer,
                     Reset_buffers],
             m_lock = True, m_complete = True, m_handler = None, m_cleaned = True,
             m_state = 11, invoked = [(0, xfer_done)]\<rparr>"
    by (simp add: outstanding_bus_def flag_defs bus_handler_def and_then_def test_and_set_def
        cleanup_def Let_def)
  from unlock_cleanup_decision [OF locked_bus_locked d1]
    unlock_cleanup_decision [OF outstanding_bus_locked d2]
    unlock_cleanup_decision [OF outstanding_bus_locked d3]
    locked_bus_locked outstanding_bus_locked d1 d2 d3
  show ?thesis
    by (simp add: locked_bus_def outstanding_bus_def flag_defs cleanup_def Let_def)
qed

section \<open>Completion events\<close>

text \<open>
  C8. The callback \<open>bus_handler\<close>. A terminal event that finds \<open>xfer_served\<close> set is
  fatal: the assertion fails, no error is returned. A terminal event that finds it
  clear sets it and signals the semaphore: in blocking mode nothing else changes;
  in async mode the stored handler has been invoked with the event and, if the bus
  was unlocked, the cleanup flag is set and the cleanup has run if the flag was
  clear before. An event
  that is not terminal changes neither \<open>m_state\<close> nor the semaphore nor the cleanup
  flag: in blocking mode it changes nothing, in async mode the stored handler is
  invoked with it.
\<close>

theorem bus_handler_terminal_event:
  "(m_state s AND xfer_served \<noteq> 0 \<longrightarrow> bus_handler xfer_done s = Abort Assert_failed) \<and>
   (m_state s AND xfer_served = 0 \<longrightarrow>
      (m_state s AND async_mode = 0 \<longrightarrow>
         bus_handler xfer_done s =
           Done (s\<lparr>m_state := m_state s OR xfer_served, m_complete := True\<rparr>)) \<and>
      (m_state s AND async_mode \<noteq> 0 \<longrightarrow> m_handler s = Some h \<longrightarrow>
         (\<exists>s'. bus_handler xfer_done s = Done s' \<and>
               m_state s' = m_state s OR xfer_served \<and> m_complete s' \<and>
               invoked s' = invoked s @ [(h, xfer_done)] \<and>
               m_cleaned s' = (m_cleaned s \<or> m_state s AND bus_locked = 0) \<and>
               m_bus s' = (if m_state s AND bus_locked = 0 \<and> \<not> m_cleaned s
                           then m_bus s @ [Reset_buffers] else m_bus s) \<and>
               m_handler s' = (if m_state s AND bus_locked = 0 \<and> \<not> m_cleaned s
                               then None else Some h)))) \<and>
   (bus_handler (other_event n) s = Done s2 \<longrightarrow>
      m_state s2 = m_state s \<and> m_complete s2 = m_complete s \<and> m_cleaned s2 = m_cleaned s) \<and>
   (m_state s AND async_mode = 0 \<longrightarrow> bus_handler (other_event n) s = Done s) \<and>
   (m_state s AND async_mode \<noteq> 0 \<longrightarrow> m_handler s = Some h \<longrightarrow>
      bus_handler (other_event n) s = Done (s\<lparr>invoked := invoked s @ [(h, other_event n)]\<rparr>))"
  by (auto simp add: bus_handler_def and_then_def Let_def test_and_set_def cleanup_def flag_simps
      split: if_splits option.splits)

theorem bus_handler_terminal_event_witness:
  "m_state completed_bus AND xfer_served \<noteq> 0 \<and>
   bus_handler xfer_done completed_bus = Abort Assert_failed \<and>
   m_state locked_bus AND xfer_served = 0 \<and> m_state locked_bus AND async_mode = 0 \<and>
   bus_handler xfer_done locked_bus = Done (locked_bus\<lparr>m_state := 13, m_complete := True\<rparr>) \<and>
   bus_handler (other_event 0) locked_bus = Done locked_bus \<and>
   m_state outstanding_bus AND xfer_served = 0 \<and> m_state outstanding_bus AND async_mode \<noteq> 0 \<and>
   m_handler outstanding_bus = Some 0 \<and>
   bus_handler xfer_done outstanding_bus =
     Done (outstanding_bus\<lparr>m_state := 15, invoked := [(0, xfer_done)], m_complete := True\<rparr>) \<and>
   bus_handler (other_event 0) outstanding_bus =
     Done (outstanding_bus\<lparr>invoked := [(0, other_event 0)]\<rparr>)"
proof -
  from bus_handler_terminal_event [of completed_bus]
  have 1: "bus_handler xfer_done completed_bus = Abort Assert_failed"
    by (simp add: completed_bus_def flag_defs)
  from bus_handler_terminal_event [of locked_bus 0 0]
  have 2: "bus_handler xfer_done locked_bus = Done (locked_bus\<lparr>m_state := 13, m_complete := True\<rparr>)"
    and 3: "bus_handler (other_event 0) locked_bus = Done locked_bus"
    by (simp_all add: locked_bus_def flag_defs)
  from bus_handler_terminal_event [of outstanding_bus 0 0]
  have 4: "bus_handler (other_event 0) outstanding_bus =
     Done (outstanding_bus\<lparr>invoked := [(0, other_event 0)]\<rparr>)"
    by (simp add: outstanding_bus_def flag_defs)
  have 5: "bus_handler xfer_done outstanding_bus =
     Done (outstanding_bus\<lparr>m_state := 15, invoked := [(0, xfer_done)], m_complete := True\<rparr>)"
    by (simp add: outstanding_bus_def flag_defs bus_handler_def and_then_def Let_def)
  from 1 2 3 4 5 show ?thesis
    by (simp add: state_defs flag_defs)
qed

section \<open>Null buffers\<close>

text \<open>
  C9. In every state in which the bus is locked, and for every size \<open>n\<close>,
  \<open>set_buffers(tx, rx, n)\<close> with \<open>tx\<close> and \<open>rx\<close> both null returns \<open>err::inval\<close> and
  changes nothing: no call is made on the transport and no member is written.
\<close>

theorem set_buffers_null_inval:
  assumes "m_state s AND bus_locked \<noteq> 0"
  shows "set_buffers 0 0 n s = Done (inval, s)"
  using assms by (simp add: set_buffers_def)

theorem set_buffers_null_inval_witness:
  "m_state locked_bus AND bus_locked \<noteq> 0 \<and>
   set_buffers 0 0 3 locked_bus = Done (inval, locked_bus) \<and>
   m_bus locked_bus = [Set_handler, Bus_init]"
proof -
  from set_buffers_null_inval [OF locked_bus_locked, of 3] locked_bus_locked
  show ?thesis by (simp add: locked_bus_def)
qed

section \<open>The cleanup routine\<close>

text \<open>
  C10. \<open>cleanup\<close> calls \<open>reset_buffers\<close> on the transport and empties the stored
  handler; \<open>m_state\<close> (all four flags), \<open>m_cleaned\<close>, the mutex and the semaphore are
  as before. In particular, after a whole event-driven cycle on a locked bus
  (\<open>xfer(handler)\<close> succeeds, the terminal event is served, \<open>unlock\<close> cleans up)
  \<open>async_mode\<close> is still set, and that makes the next \<open>lock\<close> wait on the semaphore:
  it consumes the signal the terminal event left.
\<close>

theorem cleanup_frame:
  "m_state (cleanup s) = m_state s \<and> m_cleaned (cleanup s) = m_cleaned s \<and>
   m_lock (cleanup s) = m_lock s \<and> m_complete (cleanup s) = m_complete s \<and>
   invoked (cleanup s) = invoked s \<and>
   m_bus (cleanup s) = m_bus s @ [Reset_buffers] \<and> m_handler (cleanup s) = None \<and>
   (m_state s AND bus_inited \<noteq> 0 \<and> m_state s AND bus_locked \<noteq> 0 \<and> \<not> m_cleaned s \<and>
    \<not> is_error rc \<longrightarrow>
      (\<exists>s1 s2 s3.
         xfer_async (Some h) rc [] s = Done (rc, s1) \<and>
         bus_handler xfer_done s1 = Done s2 \<and>
         unlock [] s2 = Done s3 \<and>
         m_bus s3 = m_bus s @ [Do_xfer, Reset_buffers] \<and> m_handler s3 = None \<and>
         m_state s3 AND async_mode \<noteq> 0 \<and>
         lock evs s3 = wait evs (s3\<lparr>m_lock := True, m_state := m_state s3 OR bus_locked\<rparr>) \<and>
         lock evs s3 =
           Done (s3\<lparr>m_lock := True, m_state := m_state s3 OR bus_locked,
                     m_complete := False\<rparr>)))"
proof -
  have frame: "m_state (cleanup s) = m_state s \<and> m_cleaned (cleanup s) = m_cleaned s \<and>
     m_lock (cleanup s) = m_lock s \<and> m_complete (cleanup s) = m_complete s \<and>
     invoked (cleanup s) = invoked s \<and>
     m_bus (cleanup s) = m_bus s @ [Reset_buffers] \<and> m_handler (cleanup s) = None"
    by (simp add: cleanup_def Let_def)
  have cycle: "\<exists>s1 s2 s3.
         xfer_async (Some h) rc [] s = Done (rc, s1) \<and>
         bus_handler xfer_done s1 = Done s2 \<and>
         unlock [] s2 = Done s3 \<and>
         m_bus s3 = m_bus s @ [Do_xfer, Reset_buffers] \<and> m_handler s3 = None \<and>
         m_state s3 AND async_mode \<noteq> 0 \<and>
         lock evs s3 = wait evs (s3\<lparr>m_lock := True, m_state := m_state s3 OR bus_locked\<rparr>) \<and>
         lock evs s3 =
           Done (s3\<lparr>m_lock := True, m_state := m_state s3 OR bus_locked,
                     m_complete := False\<rparr>)"
    if pre: "m_state s AND bus_inited \<noteq> 0" "m_state s AND bus_locked \<noteq> 0" "\<not> m_cleaned s"
      "\<not> is_error rc"
  proof -
    define s1 where "s1 = (xfer_async_call (Some h) s)\<lparr>m_state :=
      m_state (xfer_async_call (Some h) s) AND NOT xfer_served\<rparr>"
    define s2 where "s2 = s1\<lparr>m_state := m_state s1 OR xfer_served,
      invoked := invoked s1 @ [(h, xfer_done)], m_complete := True\<rparr>"
    define s3 where "s3 = cleanup (s2\<lparr>m_state := m_state s2 AND NOT bus_locked,
      m_cleaned := True\<rparr>)\<lparr>m_lock := False\<rparr>"
    have 1: "xfer_async (Some h) rc [] s = Done (rc, s1)"
      using pre by (simp add: xfer_async_def bus_is_busy_False and_then_def s1_def)
    have 2: "bus_handler xfer_done s1 = Done s2"
      using pre
      by (simp add: bus_handler_def and_then_def Let_def s1_def s2_def xfer_async_call_def
          flag_simps)
    have 3: "unlock [] s2 = Done s3"
      using pre
      by (simp add: unlock_def and_then_def Let_def test_and_set_def cleanup_def s1_def s2_def
          s3_def xfer_async_call_def flag_simps)
    have 4: "m_bus s3 = m_bus s @ [Do_xfer, Reset_buffers]" "m_handler s3 = None"
      by (simp_all add: cleanup_def Let_def s1_def s2_def s3_def xfer_async_call_def)
    have 5: "m_state s3 AND async_mode \<noteq> 0"
      by (simp add: cleanup_def Let_def s1_def s2_def s3_def xfer_async_call_def flag_simps)
    have 6: "lock evs s3 = wait evs (s3\<lparr>m_lock := True, m_state := m_state s3 OR bus_locked\<rparr>)"
      using pre
      by (simp add: lock_def cleanup_def Let_def s1_def s2_def s3_def xfer_async_call_def
          flag_simps)
    have 7: "wait evs (s3\<lparr>m_lock := True, m_state := m_state s3 OR bus_locked\<rparr>) =
           Done (s3\<lparr>m_lock := True, m_state := m_state s3 OR bus_locked,
                     m_complete := False\<rparr>)"
      by (simp add: wait_signalled cleanup_def Let_def s2_def s3_def)
    from 1 2 3 4 5 6 7 show ?thesis by (metis (no_types))
  qed
  from frame cycle show ?thesis by blast
qed

theorem cleanup_frame_witness:
  "m_state locked_bus AND bus_inited \<noteq> 0 \<and> m_state locked_bus AND bus_locked \<noteq> 0 \<and>
   \<not> m_cleaned locked_bus \<and> \<not> is_error ok \<and>
   m_state (cleanup locked_bus) = 5 \<and> m_bus (cleanup locked_bus) =
     [Set_handler, Bus_init, Reset_buffers] \<and>
   (\<exists>s1 s2 s3.
      xfer_async (Some 0) ok [] locked_bus = Done (ok, s1) \<and>
      bus_handler xfer_done s1 = Done s2 \<and>
      unlock [] s2 = Done s3 \<and>
      m_bus s3 = [Set_handler, Bus_init, Do_xfer, Reset_buffers] \<and> m_handler s3 = None \<and>
      m_state s3 AND async_mode \<noteq> 0 \<and>
      lock [] s3 = Done (s3\<lparr>m_lock := True, m_state := m_state s3 OR bus_locked,
                             m_complete := False\<rparr>))"
proof -
  have pre: "m_state locked_bus AND bus_inited \<noteq> 0 \<and> m_state locked_bus AND bus_locked \<noteq> 0 \<and>
    \<not> m_cleaned locked_bus \<and> \<not> is_error ok"
    by (simp add: locked_bus_def flag_defs is_error_def)
  from cleanup_frame [of locked_bus ok 0 "[]"] pre
  have "\<exists>s1 s2 s3.
      xfer_async (Some 0) ok [] locked_bus = Done (ok, s1) \<and>
      bus_handler xfer_done s1 = Done s2 \<and>
      unlock [] s2 = Done s3 \<and>
      m_bus s3 = m_bus locked_bus @ [Do_xfer, Reset_buffers] \<and> m_handler s3 = None \<and>
      m_state s3 AND async_mode \<noteq> 0 \<and>
      lock [] s3 = wait [] (s3\<lparr>m_lock := True, m_state := m_state s3 OR bus_locked\<rparr>) \<and>
      lock [] s3 = Done (s3\<lparr>m_lock := True, m_state := m_state s3 OR bus_locked,
                             m_complete := False\<rparr>)"
    by blast
  then obtain s1 s2 s3 where
    "xfer_async (Some 0) ok [] locked_bus = Done (ok, s1)"
    "bus_handler xfer_done s1 = Done s2"
    "unlock [] s2 = Done s3"
    "m_bus s3 = m_bus locked_bus @ [Do_xfer, Reset_buffers]" "m_handler s3 = None"
    "m_state s3 AND async_mode \<noteq> 0"
    "lock [] s3 = Done (s3\<lparr>m_lock := True, m_state := m_state s3 OR bus_locked,
                             m_complete := False\<rparr>)"
    by blast
  moreover have "m_bus locked_bus = [Set_handler, Bus_init]"
    by (simp add: locked_bus_def)
  moreover from cleanup_frame [of locked_bus ok 0 "[]"]
  have "m_state (cleanup locked_bus) = 5"
    "m_bus (cleanup locked_bus) = [Set_handler, Bus_init, Reset_buffers]"
    by (simp_all add: locked_bus_def)
  ultimately show ?thesis
    using pre by auto
qed

end
